theory Spec2Isabelle
  imports Main "HOL-Library.Multiset"
begin

section \<open>Cubed-sphere halo exchange: data model\<close>

text \<open>
  The source keeps a field as an array of shape \<open>(6, N+2, N+2)\<close>: six tiles, each an
  \<open>N \<times> N\<close> interior with a one-cell halo border. Here a tile grid is a list of rows and
  a field is a list of tile grids, so the tile count and the grid shape are part of the
  value. The cells are only ever copied, never computed with, so their type is a
  parameter.
\<close>

type_synonym 'a grid = "'a list list"
type_synonym 'a field = "'a grid list"

text \<open>
  The compass label of a tile edge. The source writes the labels as the strings
  \<open>"N"\<close>, \<open>"E"\<close>, \<open>"S"\<close>, \<open>"W"\<close>; they are consumed only by the edge-addressing
  helpers, which are defined for these four labels.
\<close>

datatype edge = North | East | South | West

type_synonym endpoint = "nat \<times> edge"
type_synonym adjacency = "endpoint \<times> endpoint \<times> string"
type_synonym stage = "adjacency list"
type_synonym schedule = "stage list"

text \<open>
  \<open>ValueError\<close> is what \<open>apply_operations\<close> raises on an unknown tag. \<open>IndexError\<close> is
  what indexing an axis of size 0 raises.
\<close>

datatype error = ValueError string | IndexError

section \<open>The communication schedule\<close>

definition create_communication_schedule :: schedule where
  "create_communication_schedule =
     [ \<comment> \<open>Stage 0\<close>
       [ ((0, North), (1, North), ''R''),
         ((3, East), (4, West), ''N''),
         ((2, South), (5, East), ''TR'') ],
       \<comment> \<open>Stage 1\<close>
       [ ((0, East), (4, North), ''T''),
         ((2, East), (3, West), ''N''),
         ((1, South), (5, North), ''N'') ],
       \<comment> \<open>Stage 2\<close>
       [ ((0, West), (2, North), ''TR''),
         ((1, West), (4, East), ''N''),
         ((3, South), (5, South), ''R'') ],
       \<comment> \<open>Stage 3\<close>
       [ ((0, South), (3, North), ''N''),
         ((1, East), (2, West), ''N''),
         ((4, South), (5, West), ''T'') ] ]"

text \<open>The two endpoints of an adjacency, of a stage, of a whole schedule.\<close>

fun adjacency_endpoints :: "adjacency \<Rightarrow> endpoint list" where
  "adjacency_endpoints (a, b, operations) = [a, b]"

definition stage_endpoints :: "stage \<Rightarrow> endpoint list" where
  "stage_endpoints st = concat (map adjacency_endpoints st)"

definition schedule_endpoints :: "schedule \<Rightarrow> endpoint list" where
  "schedule_endpoints sched = concat (map stage_endpoints sched)"

text \<open>All 24 pairs of a tile in \<open>0..5\<close> and a compass label.\<close>

definition all_endpoints :: "endpoint list" where
  "all_endpoints = List.product [0..<6] [North, East, South, West]"

section \<open>Orientation transform\<close>

definition apply_operations :: "'a list \<Rightarrow> string \<Rightarrow> error + 'a list" where
  "apply_operations data operations =
     (if operations = ''N'' then Inr data
      else if operations = ''T'' then Inr data
      else if operations = ''R'' then Inr (rev data)
      else if operations = ''TR'' then Inr (rev data)
      else Inl (ValueError (''Unknown operation: '' @ operations)))"

text \<open>The tags \<open>apply_operations\<close> has a branch for.\<close>

definition supported_operations :: "string list" where
  "supported_operations = [''N'', ''T'', ''R'', ''TR'']"

section \<open>Edge addressing\<close>

text \<open>
  Modelled from the spec: the positions of a tile's boundary and halo cells, which the
  absent helpers \<open>extract_boundary_data\<close> and \<open>set_ghost_data\<close> address. The interior
  occupies rows and columns \<open>1..N\<close> of the grid, the halo is row and column \<open>0\<close> and
  \<open>N+1\<close>. The spec maps N to the top interior row, S to the bottom one, E to the rightmost
  interior column and W to the leftmost one; the halo cells of an edge lie just outside
  it, and the four corners belong to no edge. \<open>boundary_index e N k\<close> is the \<open>k\<close>-th
  interior cell along edge \<open>e\<close>, \<open>ghost_index e N k\<close> the halo cell next to it, and
  \<open>ghost_position e N i j\<close> tells which halo cell of \<open>e\<close>, if any, cell \<open>(i, j)\<close> is.
\<close>

fun boundary_index :: "edge \<Rightarrow> nat \<Rightarrow> nat \<Rightarrow> nat \<times> nat" where
  "boundary_index North N k = (1, k + 1)"
| "boundary_index South N k = (N, k + 1)"
| "boundary_index West N k = (k + 1, 1)"
| "boundary_index East N k = (k + 1, N)"

fun ghost_index :: "edge \<Rightarrow> nat \<Rightarrow> nat \<Rightarrow> nat \<times> nat" where
  "ghost_index North N k = (0, k + 1)"
| "ghost_index South N k = (N + 1, k + 1)"
| "ghost_index West N k = (k + 1, 0)"
| "ghost_index East N k = (k + 1, N + 1)"

fun ghost_position :: "edge \<Rightarrow> nat \<Rightarrow> nat \<Rightarrow> nat \<Rightarrow> nat option" where
  "ghost_position North N i j = (if i = 0 \<and> 1 \<le> j \<and> j \<le> N then Some (j - 1) else None)"
| "ghost_position South N i j = (if i = N + 1 \<and> 1 \<le> j \<and> j \<le> N then Some (j - 1) else None)"
| "ghost_position West N i j = (if j = 0 \<and> 1 \<le> i \<and> i \<le> N then Some (i - 1) else None)"
| "ghost_position East N i j = (if j = N + 1 \<and> 1 \<le> i \<and> i \<le> N then Some (i - 1) else None)"

text \<open>The cells of a grid at the given positions; a position the grid does not have is
  skipped, as a slice reaching past the array is cut.\<close>

definition cells :: "'a grid \<Rightarrow> (nat \<times> nat) list \<Rightarrow> 'a list" where
  "cells g ps =
     concat (map (\<lambda>(i, j). if i < length g \<and> j < length (g ! i) then [g ! i ! j] else []) ps)"

text \<open>
  Modelled from the spec: \<open>extract_boundary_data\<close> (the spec's \<open>extract\<close>) is called by
  \<open>exchange_edge_pair\<close> and its body is not in the source file. By the spec it
  returns the outermost interior row or column at \<open>edge\<close>, excluding existing halo
  cells, as a vector of length \<open>N\<close>, and does not change its input.
\<close>

definition extract_boundary_data :: "'a grid \<Rightarrow> edge \<Rightarrow> nat \<Rightarrow> 'a list" where
  "extract_boundary_data g e N = cells g (map (boundary_index e N) [0..<N])"

text \<open>
  Modelled from the spec: \<open>set_ghost_data\<close> (the spec's \<open>write_ghost\<close>) is called by
  \<open>exchange_edge_pair\<close> and its body is not in the source file. By the spec it
  returns a grid with the halo cells just outside \<open>edge\<close> replaced by \<open>data\<close>,
  interior and other halo cells unchanged, corners untouched, input not changed. The
  result has the shape of \<open>g\<close>; cell \<open>(i, j)\<close> holds \<open>d ! k\<close> when it is the \<open>k\<close>-th halo
  cell of the edge and \<open>d\<close> is that long, and its old value otherwise.
\<close>

definition set_ghost_data :: "'a grid \<Rightarrow> edge \<Rightarrow> 'a list \<Rightarrow> nat \<Rightarrow> 'a grid" where
  "set_ghost_data g e d N =
     map (\<lambda>i. map (\<lambda>j. case ghost_position e N i j of
                         Some k \<Rightarrow> if k < length d then d ! k else g ! i ! j
                       | None \<Rightarrow> g ! i ! j)
                [0..<length (g ! i)])
         [0..<length g]"

text \<open>The halo of a tile at an edge (what \<open>set_ghost_data\<close> wrote), read back in the
  order of the boundary data.\<close>

definition ghost_data :: "'a grid \<Rightarrow> edge \<Rightarrow> nat \<Rightarrow> 'a list" where
  "ghost_data g e N = cells g (map (ghost_index e N) [0..<N])"

section \<open>Exchange engine\<close>

text \<open>
  Indexing an array with a static integer, \<open>field_ghosts[face]\<close>. As JAX documents it,
  a read past the end is clamped to the last position and never raises; only an axis of
  size 0 cannot be indexed. An update \<open>x.at[i].set(v)\<close> past the end is dropped, which is
  what \<open>xs[i := v]\<close> does. Face numbers are natural numbers, so negative indices do not
  arise.
\<close>

definition getitem :: "'a list \<Rightarrow> nat \<Rightarrow> error + 'a" where
  "getitem xs i = (if xs = [] then Inl IndexError else Inr (xs ! min i (length xs - 1)))"

text \<open>
  The pairwise exchange, statement by statement: both boundaries are extracted from the
  field as passed in, both are transformed, then tile \<open>face_b\<close> is replaced and after it
  tile \<open>face_a\<close>, the second replacement reading the field the first one returned.
\<close>

definition exchange_edge_pair ::
  "'a field \<Rightarrow> nat \<Rightarrow> edge \<Rightarrow> nat \<Rightarrow> edge \<Rightarrow> string \<Rightarrow> nat \<Rightarrow> error + 'a field" where
  "exchange_edge_pair field_ghosts face_a edge_a face_b edge_b operations N =
     (case getitem field_ghosts face_a of Inl err \<Rightarrow> Inl err | Inr tile_a \<Rightarrow>
     (let data_a = extract_boundary_data tile_a edge_a N in
     (case getitem field_ghosts face_b of Inl err \<Rightarrow> Inl err | Inr tile_b \<Rightarrow>
     (let data_b = extract_boundary_data tile_b edge_b N in
     (case apply_operations data_a operations of Inl err \<Rightarrow> Inl err | Inr data_to_b \<Rightarrow>
     (case apply_operations data_b operations of Inl err \<Rightarrow> Inl err | Inr data_to_a \<Rightarrow>
     (case getitem field_ghosts face_b of Inl err \<Rightarrow> Inl err | Inr tile_b' \<Rightarrow>
     (let field_ghosts' = field_ghosts[face_b := set_ghost_data tile_b' edge_b data_to_b N] in
     (case getitem field_ghosts' face_a of Inl err \<Rightarrow> Inl err | Inr tile_a' \<Rightarrow>
        Inr (field_ghosts'[face_a := set_ghost_data tile_a' edge_a data_to_a N]))))))))))"

text \<open>
  \<open>make_halo_exchange\<close> has no \<open>raise\<close> and inspects the schedule only to bind each
  adjacency's arguments: \<open>exchange_functions\<close> is the list its two nested iterations build, stage by
  stage, and the function it returns is \<open>cubesphere_halo_exchange\<close> over that list.
  \<open>jax.jit\<close> changes when the code is traced, not what it computes, so an error of an
  exchange surfaces when the built function is called.
\<close>

definition exchange_functions :: "schedule \<Rightarrow> nat \<Rightarrow> ('a field \<Rightarrow> error + 'a field) list" where
  "exchange_functions schedule N =
     concat (map (\<lambda>stage.
       map (\<lambda>((face_a, edge_a), (face_b, edge_b), operations).
              (\<lambda>field_ghosts.
                 exchange_edge_pair field_ghosts face_a edge_a face_b edge_b operations N))
           stage) schedule)"

fun cubesphere_halo_exchange ::
  "('a field \<Rightarrow> error + 'a field) list \<Rightarrow> 'a field \<Rightarrow> error + 'a field" where
  "cubesphere_halo_exchange [] field_ghosts = Inr field_ghosts"
| "cubesphere_halo_exchange (exchange_fn # exchange_fns) field_ghosts =
     (case exchange_fn field_ghosts of
        Inl err \<Rightarrow> Inl err
      | Inr field_ghosts' \<Rightarrow> cubesphere_halo_exchange exchange_fns field_ghosts')"

definition make_halo_exchange :: "schedule \<Rightarrow> nat \<Rightarrow> 'a field \<Rightarrow> error + 'a field" where
  "make_halo_exchange schedule N = cubesphere_halo_exchange (exchange_functions schedule N)"

section \<open>The exchange over a store of arrays\<close>

text \<open>
  To speak about what happens to the caller's array, the same code once more with the
  arrays as objects: a store is the list of the field arrays allocated so far, and a
  reference is a position in it. The only operation of the code that produces a field
  array is \<open>x.at[i].set(v)\<close>, which allocates a new array and leaves \<open>x\<close> as it is; the
  tile slices and boundary vectors are temporaries the caller never holds and stay
  values. A reference a program holds is always allocated (below the length of the
  store).
\<close>

type_synonym 'a store = "'a field list"

definition at_set :: "'a store \<Rightarrow> nat \<Rightarrow> nat \<Rightarrow> 'a grid \<Rightarrow> 'a store \<times> nat" where
  "at_set s r i v = (s @ [(s ! r)[i := v]], length s)"

definition exchange_edge_pair_st ::
  "'a store \<Rightarrow> nat \<Rightarrow> nat \<Rightarrow> edge \<Rightarrow> nat \<Rightarrow> edge \<Rightarrow> string \<Rightarrow> nat \<Rightarrow>
     error + ('a store \<times> nat)" where
  "exchange_edge_pair_st s field_ghosts face_a edge_a face_b edge_b operations N =
     (case getitem (s ! field_ghosts) face_a of Inl err \<Rightarrow> Inl err | Inr tile_a \<Rightarrow>
     (let data_a = extract_boundary_data tile_a edge_a N in
     (case getitem (s ! field_ghosts) face_b of Inl err \<Rightarrow> Inl err | Inr tile_b \<Rightarrow>
     (let data_b = extract_boundary_data tile_b edge_b N in
     (case apply_operations data_a operations of Inl err \<Rightarrow> Inl err | Inr data_to_b \<Rightarrow>
     (case apply_operations data_b operations of Inl err \<Rightarrow> Inl err | Inr data_to_a \<Rightarrow>
     (case getitem (s ! field_ghosts) face_b of Inl err \<Rightarrow> Inl err | Inr tile_b' \<Rightarrow>
     (case at_set s field_ghosts face_b (set_ghost_data tile_b' edge_b data_to_b N) of
        (s', field_ghosts') \<Rightarrow>
     (case getitem (s' ! field_ghosts') face_a of Inl err \<Rightarrow> Inl err | Inr tile_a' \<Rightarrow>
        Inr (at_set s' field_ghosts' face_a
               (set_ghost_data tile_a' edge_a data_to_a N)))))))))))"

definition exchange_functions_st ::
  "schedule \<Rightarrow> nat \<Rightarrow> ('a store \<Rightarrow> nat \<Rightarrow> error + ('a store \<times> nat)) list" where
  "exchange_functions_st schedule N =
     concat (map (\<lambda>stage.
       map (\<lambda>((face_a, edge_a), (face_b, edge_b), operations).
              (\<lambda>s field_ghosts.
                 exchange_edge_pair_st s field_ghosts face_a edge_a face_b edge_b operations N))
           stage) schedule)"

fun cubesphere_halo_exchange_st ::
  "('a store \<Rightarrow> nat \<Rightarrow> error + ('a store \<times> nat)) list \<Rightarrow> 'a store \<Rightarrow> nat \<Rightarrow>
     error + ('a store \<times> nat)" where
  "cubesphere_halo_exchange_st [] s field_ghosts = Inr (s, field_ghosts)"
| "cubesphere_halo_exchange_st (exchange_fn # exchange_fns) s field_ghosts =
     (case exchange_fn s field_ghosts of
        Inl err \<Rightarrow> Inl err
      | Inr (s', field_ghosts') \<Rightarrow> cubesphere_halo_exchange_st exchange_fns s' field_ghosts')"

definition make_halo_exchange_st ::
  "schedule \<Rightarrow> nat \<Rightarrow> 'a store \<Rightarrow> nat \<Rightarrow> error + ('a store \<times> nat)" where
  "make_halo_exchange_st schedule N = cubesphere_halo_exchange_st (exchange_functions_st schedule N)"

text \<open>
  \<open>new_result s p q\<close>: the run \<open>q\<close> over the store \<open>s\<close> agrees with the run \<open>p\<close> over
  values. Either both fail with the same error, or \<open>q\<close> returns a store that still holds
  every array of \<open>s\<close> unchanged at its position, and a reference that was not allocated
  in \<open>s\<close> and holds the field \<open>p\<close> returns.
\<close>

definition new_result ::
  "'a store \<Rightarrow> error + 'a field \<Rightarrow> error + ('a store \<times> nat) \<Rightarrow> bool" where
  "new_result s p q =
     (case p of
        Inl err \<Rightarrow> q = Inl err
      | Inr f' \<Rightarrow>
          (case q of
             Inl err \<Rightarrow> False
           | Inr (s', r') \<Rightarrow>
               take (length s) s' = s \<and> length s \<le> r' \<and> r' < length s' \<and> s' ! r' = f'))"

section \<open>Well-formed fields and the exchange as halo writes\<close>

text \<open>A tile grid of resolution \<open>N\<close> has \<open>N+2\<close> rows of \<open>N+2\<close> cells; a well-formed field
  has six such tiles.\<close>

definition wf_grid :: "nat \<Rightarrow> 'a grid \<Rightarrow> bool" where
  "wf_grid N g = (length g = N + 2 \<and> (\<forall>r \<in> set g. length r = N + 2))"

definition wf_tiles :: "nat \<Rightarrow> 'a field \<Rightarrow> bool" where
  "wf_tiles N f = (\<forall>g \<in> set f. wf_grid N g)"

definition wf_field :: "nat \<Rightarrow> 'a field \<Rightarrow> bool" where
  "wf_field N f = (length f = 6 \<and> wf_tiles N f)"

text \<open>Tiles that are at least that large: every grid has at least \<open>N+2\<close> rows of at least
  \<open>N+2\<close> cells, so that every position the edge helpers address for resolution \<open>N\<close>
  exists. Well-formed tiles are among them.\<close>

definition roomy_grid :: "nat \<Rightarrow> 'a grid \<Rightarrow> bool" where
  "roomy_grid N g = (N + 2 \<le> length g \<and> (\<forall>r \<in> set g. N + 2 \<le> length r))"

definition roomy_tiles :: "nat \<Rightarrow> 'a field \<Rightarrow> bool" where
  "roomy_tiles N f = (\<forall>g \<in> set f. roomy_grid N g)"

text \<open>An adjacency a field of \<open>n\<close> tiles can run: both tiles exist and the tag is one
  \<open>apply_operations\<close> accepts.\<close>

definition adjacency_ok :: "nat \<Rightarrow> adjacency \<Rightarrow> bool" where
  "adjacency_ok n x =
     (case x of (a, b, operations) \<Rightarrow>
        fst a < n \<and> fst b < n \<and> operations \<in> set supported_operations)"

text \<open>
  What a successful \<open>exchange_edge_pair\<close> computes, written as two halo writes: \<open>orient\<close> is
  \<open>apply_operations\<close> on an accepted tag, \<open>boundary_data\<close> the boundary of an endpoint,
  \<open>halo_write\<close> the replacement of one tile by itself with one halo written, and
  \<open>exchange_pure\<close> their composition (lemma \<open>exchange_edge_pair_pure\<close> below).
\<close>

definition orient :: "string \<Rightarrow> 'a list \<Rightarrow> 'a list" where
  "orient operations d = (if operations = ''R'' \<or> operations = ''TR'' then rev d else d)"

definition boundary_data :: "nat \<Rightarrow> 'a field \<Rightarrow> endpoint \<Rightarrow> 'a list" where
  "boundary_data N f p = extract_boundary_data (f ! fst p) (snd p) N"

definition halo_write :: "nat \<Rightarrow> endpoint \<Rightarrow> 'a list \<Rightarrow> 'a field \<Rightarrow> 'a field" where
  "halo_write N p d f = f[fst p := set_ghost_data (f ! fst p) (snd p) d N]"

fun exchange_pure :: "nat \<Rightarrow> adjacency \<Rightarrow> 'a field \<Rightarrow> 'a field" where
  "exchange_pure N (a, b, operations) f =
     halo_write N a (orient operations (boundary_data N f b))
       (halo_write N b (orient operations (boundary_data N f a)) f)"

text \<open>Example tiles for the concrete evaluations: a \<open>3 \<times> 3\<close> tile (\<open>N = 1\<close>) with interior
  value \<open>v\<close>, and a \<open>6 \<times> 6\<close> tile (\<open>N = 4\<close>) with the given north interior row; halos are 0.\<close>

definition tile1 :: "int \<Rightarrow> int grid" where
  "tile1 v = [[0, 0, 0], [0, v, 0], [0, 0, 0]]"

definition tile4 :: "int list \<Rightarrow> int grid" where
  "tile4 north =
     [[0, 0, 0, 0, 0, 0], 0 # north @ [0], [0, 9, 9, 9, 9, 0],
      [0, 9, 9, 9, 9, 0], [0, 9, 9, 9, 9, 0], [0, 0, 0, 0, 0, 0]]"


section \<open>Schedule invariants\<close>

lemma all_endpoints_list:
  "all_endpoints =
     [(0, North), (0, East), (0, South), (0, West),
      (1, North), (1, East), (1, South), (1, West),
      (2, North), (2, East), (2, South), (2, West),
      (3, North), (3, East), (3, South), (3, West),
      (4, North), (4, East), (4, South), (4, West),
      (5, North), (5, East), (5, South), (5, West)]"
  unfolding all_endpoints_def by code_simp

lemma schedule_stage_lengths:
  "map length create_communication_schedule = [3, 3, 3, 3]"
  by (simp add: create_communication_schedule_def)

lemma schedule_endpoints_list:
  "schedule_endpoints create_communication_schedule =
     [(0, North), (1, North), (3, East), (4, West), (2, South), (5, East),
      (0, East), (4, North), (2, East), (3, West), (1, South), (5, North),
      (0, West), (2, North), (1, West), (4, East), (3, South), (5, South),
      (0, South), (3, North), (1, East), (2, West), (4, South), (5, West)]"
  by (simp add: create_communication_schedule_def schedule_endpoints_def stage_endpoints_def)

lemma schedule_endpoints_distinct:
  "distinct (schedule_endpoints create_communication_schedule)"
  unfolding schedule_endpoints_list by simp

lemma schedule_endpoints_all:
  "set (schedule_endpoints create_communication_schedule) = set all_endpoints"
  by code_simp

text \<open>
  C1. The schedule has exactly 4 stages of 3 adjacencies each, and its 24 endpoints are
  pairwise distinct and are exactly the 24 pairs of a tile in \<open>0..5\<close> and an edge: each
  such pair appears in exactly one adjacency.
\<close>

theorem schedule_coverage:
  "map length create_communication_schedule = [3, 3, 3, 3]
   \<and> length (schedule_endpoints create_communication_schedule) = 24
   \<and> distinct (schedule_endpoints create_communication_schedule)
   \<and> set (schedule_endpoints create_communication_schedule) = set all_endpoints"
  using schedule_stage_lengths schedule_endpoints_distinct schedule_endpoints_all
  by (simp add: schedule_endpoints_list)

text \<open>
  C2. In every stage of the schedule the six endpoints of its three adjacencies are
  pairwise distinct: no endpoint appears in more than one adjacency of the stage.
\<close>

theorem stage_disjointness:
  "\<forall>st \<in> set create_communication_schedule. distinct (stage_endpoints st)"
  by (simp add: create_communication_schedule_def stage_endpoints_def)

theorem stage_disjointness_witness:
  "distinct (stage_endpoints
     [((0, North), (1, North), ''R''), ((3, East), (4, West), ''N''),
      ((2, South), (5, East), ''TR'')])"
proof -
  have "[((0, North), (1, North), ''R''), ((3, East), (4, West), ''N''),
         ((2, South), (5, East), ''TR'')] \<in> set create_communication_schedule"
    by (simp add: create_communication_schedule_def)
  then show ?thesis
    using stage_disjointness by blast
qed

section \<open>Properties of the orientation transform\<close>

text \<open>
  C4. For each of the four tags the transform has a branch for, applying it twice gives
  the data back; tag \<open>"N"\<close> (identity) returns the data unchanged and tag \<open>"R"\<close>
  (reverse) returns it in inverted order.
\<close>

theorem apply_operations_involution:
  "operations \<in> set supported_operations \<Longrightarrow>
     (\<exists>d'. apply_operations d operations = Inr d' \<and> apply_operations d' operations = Inr d)
     \<and> apply_operations d ''N'' = Inr d
     \<and> apply_operations d ''R'' = Inr (rev d)"
  by (auto simp: apply_operations_def supported_operations_def)

theorem apply_operations_involution_witness:
  "''TR'' \<in> set supported_operations
   \<and> apply_operations [1, 2, 3 :: int] ''TR'' = Inr [3, 2, 1]
   \<and> apply_operations [3, 2, 1 :: int] ''TR'' = Inr [1, 2, 3]"
proof -
  have h: "''TR'' \<in> set supported_operations"
    by (simp add: supported_operations_def)
  show ?thesis
    using h apply_operations_involution [OF h, of "[1, 2, 3 :: int]"]
    by (simp add: apply_operations_def)
qed

text \<open>
  C5, as stated, has the transform fail for every tag other than the identity tag \<open>"N"\<close>
  and the reverse tag \<open>"R"\<close>. The tags \<open>"T"\<close> and \<open>"TR"\<close> are neither, and the
  transform accepts both.
\<close>

theorem apply_operations_T_accepted:
  "''T'' \<noteq> ''N'' \<and> ''T'' \<noteq> ''R'' \<and> apply_operations [1, 2 :: int] ''T'' = Inr [1, 2]
   \<and> ''TR'' \<noteq> ''N'' \<and> ''TR'' \<noteq> ''R'' \<and> apply_operations [1, 2 :: int] ''TR'' = Inr [2, 1]"
  by (simp add: apply_operations_def)

text \<open>
  C5, amended. The transform fails, with \<open>ValueError\<close>, exactly when the tag is none of
  \<open>"N"\<close>, \<open>"T"\<close>, \<open>"R"\<close>, \<open>"TR"\<close>; on \<open>"N"\<close> and \<open>"T"\<close> it returns the data unchanged
  and on \<open>"R"\<close> and \<open>"TR"\<close> it returns the data reversed.
\<close>

theorem apply_operations_raises_iff:
  "apply_operations d operations =
     (if operations \<in> set supported_operations
      then Inr (if operations = ''R'' \<or> operations = ''TR'' then rev d else d)
      else Inl (ValueError (''Unknown operation: '' @ operations)))"
  by (simp add: apply_operations_def supported_operations_def)

section \<open>Edge addressing: shape, cells and disjointness\<close>

lemma length_set_ghost_data [simp]: "length (set_ghost_data g e d N) = length g"
  by (simp add: set_ghost_data_def)

lemma length_set_ghost_data_row [simp]:
  "i < length g \<Longrightarrow> length (set_ghost_data g e d N ! i) = length (g ! i)"
  by (simp add: set_ghost_data_def)

lemma set_ghost_data_cell:
  "i < length g \<Longrightarrow> j < length (g ! i) \<Longrightarrow>
     set_ghost_data g e d N ! i ! j =
       (case ghost_position e N i j of
          Some k \<Rightarrow> if k < length d then d ! k else g ! i ! j
        | None \<Rightarrow> g ! i ! j)"
  by (simp add: set_ghost_data_def split: option.splits)

lemma ghost_position_disjoint:
  "e \<noteq> e' \<Longrightarrow> ghost_position e N i j = None \<or> ghost_position e' N i j = None"
  by (cases e; cases e'; simp)

lemma ghost_position_boundary:
  "k < N \<Longrightarrow> (case boundary_index e' N k of (i, j) \<Rightarrow> ghost_position e N i j) = None"
  by (cases e; cases e'; simp)

lemma ghost_position_ghost_index:
  "k < N \<Longrightarrow> (case ghost_index e N k of (i, j) \<Rightarrow> ghost_position e N i j) = Some k"
  by (cases e; simp)

lemma grid_eqI:
  assumes "length g = length h"
    and "\<And>i. i < length g \<Longrightarrow> length (g ! i) = length (h ! i)"
    and "\<And>i j. i < length g \<Longrightarrow> j < length (g ! i) \<Longrightarrow> g ! i ! j = h ! i ! j"
  shows "g = (h :: 'a grid)"
  using assms by (auto intro!: nth_equalityI)

lemma set_ghost_data_commute:
  assumes "e \<noteq> e'"
  shows "set_ghost_data (set_ghost_data g e d N) e' d' N =
         set_ghost_data (set_ghost_data g e' d' N) e d N"
proof (rule grid_eqI)
  fix i j
  assume "i < length (set_ghost_data (set_ghost_data g e d N) e' d' N)"
     and "j < length (set_ghost_data (set_ghost_data g e d N) e' d' N ! i)"
  then have ij: "i < length g" "j < length (g ! i)" by simp_all
  show "set_ghost_data (set_ghost_data g e d N) e' d' N ! i ! j =
        set_ghost_data (set_ghost_data g e' d' N) e d N ! i ! j"
    using ghost_position_disjoint [OF assms, of N i j] ij
    by (auto simp: set_ghost_data_cell split: option.splits)
qed simp_all

lemma set_ghost_data_idem:
  "set_ghost_data (set_ghost_data g e d N) e d N = set_ghost_data g e d N"
proof (rule grid_eqI)
  fix i j
  assume "i < length (set_ghost_data (set_ghost_data g e d N) e d N)"
     and "j < length (set_ghost_data (set_ghost_data g e d N) e d N ! i)"
  then have ij: "i < length g" "j < length (g ! i)" by simp_all
  then show "set_ghost_data (set_ghost_data g e d N) e d N ! i ! j =
        set_ghost_data g e d N ! i ! j"
    by (auto simp: set_ghost_data_cell split: option.splits)
qed simp_all

lemma extract_set_ghost_data:
  "extract_boundary_data (set_ghost_data g e d N) e' N = extract_boundary_data g e' N"
proof -
  have "(case boundary_index e' N k of (i, j) \<Rightarrow>
           if i < length (set_ghost_data g e d N) \<and> j < length (set_ghost_data g e d N ! i)
           then [set_ghost_data g e d N ! i ! j] else []) =
        (case boundary_index e' N k of (i, j) \<Rightarrow>
           if i < length g \<and> j < length (g ! i) then [g ! i ! j] else [])"
    if "k < N" for k
    using ghost_position_boundary [OF that, where e = e and e' = e']
    by (auto simp: set_ghost_data_cell split: prod.splits)
  then show ?thesis
    by (auto simp: extract_boundary_data_def cells_def intro!: arg_cong [where f = concat])
qed

lemma cells_in_range:
  "\<forall>(i, j) \<in> set ps. i < length g \<and> j < length (g ! i) \<Longrightarrow>
     cells g ps = map (\<lambda>(i, j). g ! i ! j) ps"
  by (induction ps) (auto simp: cells_def)

lemma wf_grid_row: "wf_grid N g \<Longrightarrow> i < N + 2 \<Longrightarrow> length (g ! i) = N + 2"
  by (auto simp: wf_grid_def)

lemma wf_grid_length: "wf_grid N g \<Longrightarrow> length g = N + 2"
  by (simp add: wf_grid_def)

lemma ghost_index_in_range:
  assumes "wf_grid N g" and "k < N" and "ghost_index e N k = (i, j)"
  shows "i < length g \<and> j < length (g ! i)"
proof -
  have "i < N + 2 \<and> j < N + 2"
    using assms(2,3) by (cases e) auto
  then show ?thesis
    using wf_grid_length [OF assms(1)] wf_grid_row [OF assms(1), of i] by simp
qed

lemma boundary_index_in_range:
  assumes "wf_grid N g" and "k < N" and "boundary_index e N k = (i, j)"
  shows "i < length g \<and> j < length (g ! i)"
proof -
  have "i < N + 2 \<and> j < N + 2"
    using assms(2,3) by (cases e) auto
  then show ?thesis
    using wf_grid_length [OF assms(1)] wf_grid_row [OF assms(1), of i] by simp
qed

lemma wf_grid_set_ghost_data: "wf_grid N g \<Longrightarrow> wf_grid N (set_ghost_data g e d N)"
  by (auto simp: wf_grid_def set_ghost_data_def)

lemma extract_boundary_data_wf:
  "wf_grid N g \<Longrightarrow>
     extract_boundary_data g e N = map (\<lambda>k. case boundary_index e N k of (i, j) \<Rightarrow> g ! i ! j) [0..<N]"
  unfolding extract_boundary_data_def
  by (subst cells_in_range) (auto dest: boundary_index_in_range simp: comp_def split: prod.splits)

lemma length_extract_boundary_data:
  "wf_grid N g \<Longrightarrow> length (extract_boundary_data g e N) = N"
  by (simp add: extract_boundary_data_wf)

lemma ghost_data_wf:
  "wf_grid N g \<Longrightarrow>
     ghost_data g e N = map (\<lambda>k. case ghost_index e N k of (i, j) \<Rightarrow> g ! i ! j) [0..<N]"
  unfolding ghost_data_def
  by (subst cells_in_range) (auto dest: ghost_index_in_range simp: comp_def split: prod.splits)

lemma ghost_data_set_ghost_data:
  assumes wf: "wf_grid N g" and len: "length d = N"
  shows "ghost_data (set_ghost_data g e d N) e N = d"
proof -
  have "(case ghost_index e N k of (i, j) \<Rightarrow> set_ghost_data g e d N ! i ! j) = d ! k"
    if "k < N" for k
    using ghost_position_ghost_index [OF that, of e]
      ghost_index_in_range [OF wf that, of e] len that
    by (cases "ghost_index e N k") (auto simp: set_ghost_data_cell)
  then have "ghost_data (set_ghost_data g e d N) e N = map (\<lambda>k. d ! k) [0..<N]"
    by (simp add: ghost_data_wf wf_grid_set_ghost_data wf)
  then show ?thesis
    using len map_nth [of d] by simp
qed

section \<open>Halo writes commute; the exchange in closed form\<close>

lemma boundary_data_halo_write [simp]:
  "boundary_data N (halo_write N p d f) q = boundary_data N f q"
  by (cases "fst p < length f")
     (auto simp: boundary_data_def halo_write_def extract_set_ghost_data nth_list_update
        list_update_beyond)

lemma length_halo_write [simp]: "length (halo_write N p d f) = length f"
  by (simp add: halo_write_def)

lemma halo_write_commute:
  assumes "p \<noteq> q"
  shows "halo_write N p d (halo_write N q d' f) = halo_write N q d' (halo_write N p d f)"
proof (cases "fst p = fst q")
  case False
  then show ?thesis
    by (simp add: halo_write_def list_update_swap)
next
  case True
  with assms have "snd p \<noteq> snd q"
    by (simp add: prod_eq_iff)
  then show ?thesis
    using True
    by (cases "fst q < length f") (simp_all add: halo_write_def set_ghost_data_commute list_update_beyond)
qed

lemma halo_write_idem:
  "halo_write N p d (halo_write N p d f) = halo_write N p d f"
  by (cases "fst p < length f") (simp_all add: halo_write_def set_ghost_data_idem list_update_beyond)

lemma length_exchange_pure [simp]: "length (exchange_pure N x f) = length f"
  by (cases x) simp

lemma exchange_pure_commute:
  assumes "set (adjacency_endpoints x) \<inter> set (adjacency_endpoints y) = {}"
  shows "exchange_pure N x (exchange_pure N y f) = exchange_pure N y (exchange_pure N x f)"
proof -
  obtain a1 b1 o1 where x: "x = (a1, b1, o1)" by (cases x)
  obtain a2 b2 o2 where y: "y = (a2, b2, o2)" by (cases y)
  from assms have ne: "a1 \<noteq> a2" "a1 \<noteq> b2" "b1 \<noteq> a2" "b1 \<noteq> b2"
    by (auto simp: x y)
  show ?thesis
    unfolding x y
    by (simp add: halo_write_commute [OF ne(1)] halo_write_commute [OF ne(2)]
        halo_write_commute [OF ne(3)] halo_write_commute [OF ne(4)])
qed

lemma exchange_pure_idem:
  assumes "distinct (adjacency_endpoints x)"
  shows "exchange_pure N x (exchange_pure N x f) = exchange_pure N x f"
proof -
  obtain a b ops where x: "x = (a, b, ops)" by (cases x)
  from assms have ne: "b \<noteq> a" by (auto simp: x)
  show ?thesis
    unfolding x
    by (simp add: halo_write_commute [OF ne] halo_write_idem)
qed

lemma exchange_pure_fold_commute:
  "\<forall>y \<in> set ys. set (adjacency_endpoints x) \<inter> set (adjacency_endpoints y) = {} \<Longrightarrow>
     exchange_pure N x (fold (exchange_pure N) ys f) = fold (exchange_pure N) ys (exchange_pure N x f)"
  by (induction ys arbitrary: f) (simp_all add: exchange_pure_commute)

lemma fold_exchange_pure_idem:
  "distinct (concat (map adjacency_endpoints xs)) \<Longrightarrow>
     fold (exchange_pure N) xs (fold (exchange_pure N) xs f) = fold (exchange_pure N) xs f"
proof (induction xs arbitrary: f)
  case Nil
  then show ?case by simp
next
  case (Cons x xs)
  then have d: "distinct (adjacency_endpoints x)"
    and rest: "distinct (concat (map adjacency_endpoints xs))"
    and disj: "\<forall>y \<in> set xs. set (adjacency_endpoints x) \<inter> set (adjacency_endpoints y) = {}"
    by auto
  have "fold (exchange_pure N) (x # xs) (fold (exchange_pure N) (x # xs) f) =
        fold (exchange_pure N) xs (exchange_pure N x (fold (exchange_pure N) xs (exchange_pure N x f)))"
    by simp
  also have "\<dots> = fold (exchange_pure N) xs (fold (exchange_pure N) xs
                      (exchange_pure N x (exchange_pure N x f)))"
    by (simp add: exchange_pure_fold_commute [OF disj])
  also have "\<dots> = fold (exchange_pure N) xs (fold (exchange_pure N) xs (exchange_pure N x f))"
    by (simp add: exchange_pure_idem [OF d])
  also have "\<dots> = fold (exchange_pure N) xs (exchange_pure N x f)"
    by (rule Cons.IH [OF rest])
  finally show ?case by simp
qed

lemma fold_exchange_pure_perm:
  fixes f :: "'a field"
  assumes "distinct (concat (map adjacency_endpoints xs))" and "mset ys = mset xs"
  shows "fold (exchange_pure N) ys f = fold (exchange_pure N) xs f"
proof -
  have "exchange_pure N x \<circ> exchange_pure N y =
        (exchange_pure N y \<circ> exchange_pure N x :: 'a field \<Rightarrow> 'a field)"
    if "x \<in> set xs" and "y \<in> set xs" for x y
  proof (cases "x = y")
    case True
    then show ?thesis by simp
  next
    case False
    have disj: "set (adjacency_endpoints x) \<inter> set (adjacency_endpoints y) = {}"
      using assms(1) that False
      by (induction xs) auto
    show ?thesis
      by (simp add: fun_eq_iff exchange_pure_commute [OF disj])
  qed
  then have "fold (exchange_pure N) xs = (fold (exchange_pure N) ys :: 'a field \<Rightarrow> 'a field)"
    by (rule fold_multiset_equiv) (simp_all add: assms(2))
  then show ?thesis by simp
qed

lemma getitem_in_range: "i < length xs \<Longrightarrow> getitem xs i = Inr (xs ! i)"
  by (auto simp: getitem_def min_def)

lemma apply_operations_orient:
  "operations \<in> set supported_operations \<Longrightarrow>
     apply_operations d operations = Inr (orient operations d)"
  by (auto simp: apply_operations_def orient_def supported_operations_def)

lemma exchange_edge_pair_pure:
  assumes "adjacency_ok (length f) ((face_a, edge_a), (face_b, edge_b), operations)"
  shows "exchange_edge_pair f face_a edge_a face_b edge_b operations N =
         Inr (exchange_pure N ((face_a, edge_a), (face_b, edge_b), operations) f)"
  using assms
  by (simp add: adjacency_ok_def exchange_edge_pair_def getitem_in_range
      apply_operations_orient halo_write_def boundary_data_def Let_def)

lemma exchange_functions_concat:
  "exchange_functions sched N =
     map (\<lambda>((face_a, edge_a), (face_b, edge_b), operations) field_ghosts.
            exchange_edge_pair field_ghosts face_a edge_a face_b edge_b operations N)
         (concat sched)"
  by (simp add: exchange_functions_def map_concat)

lemma cubesphere_halo_exchange_pure:
  "\<forall>x \<in> set xs. adjacency_ok (length f) x \<Longrightarrow>
     cubesphere_halo_exchange
       (map (\<lambda>((face_a, edge_a), (face_b, edge_b), operations) field_ghosts.
               exchange_edge_pair field_ghosts face_a edge_a face_b edge_b operations N) xs) f =
     Inr (fold (exchange_pure N) xs f)"
proof (induction xs arbitrary: f)
  case Nil
  then show ?case by simp
next
  case (Cons x xs)
  obtain face_a edge_a face_b edge_b operations
    where x: "x = ((face_a, edge_a), (face_b, edge_b), operations)"
    by (metis prod.exhaust)
  have ok: "adjacency_ok (length f) ((face_a, edge_a), (face_b, edge_b), operations)"
    using Cons.prems by (simp add: x)
  have rest: "\<forall>y \<in> set xs. adjacency_ok (length (exchange_pure N x f)) y"
    using Cons.prems by simp
  show ?case
    using Cons.IH [OF rest]
    by (simp add: x exchange_edge_pair_pure [OF ok])
qed

lemma make_halo_exchange_pure:
  "\<forall>x \<in> set (concat sched). adjacency_ok (length f) x \<Longrightarrow>
     make_halo_exchange sched N f = Inr (fold (exchange_pure N) (concat sched) f)"
  unfolding make_halo_exchange_def exchange_functions_concat
  by (rule cubesphere_halo_exchange_pure)

section \<open>The schedule on well-formed fields\<close>

lemma schedule_adjacencies_ok:
  "\<forall>x \<in> set (concat create_communication_schedule). adjacency_ok 6 x"
  by (simp add: create_communication_schedule_def adjacency_ok_def supported_operations_def)

lemma schedule_adjacencies_distinct:
  "distinct (concat (map adjacency_endpoints (concat create_communication_schedule)))"
  by (simp add: create_communication_schedule_def)

lemma stage_adjacencies_distinct:
  "st \<in> set create_communication_schedule \<Longrightarrow> distinct (concat (map adjacency_endpoints st))"
  by (auto simp: create_communication_schedule_def)

lemma length_fold_exchange_pure [simp]: "length (fold (exchange_pure N) xs f) = length f"
  by (induction xs arbitrary: f) simp_all

lemma example_field_wf: "wf_field 1 (map tile1 [1, 2, 3, 4, 5, 6])"
  by (simp add: wf_field_def wf_tiles_def wf_grid_def tile1_def)

lemma example_field_exchange:
  "make_halo_exchange create_communication_schedule 1 (map tile1 [1, 2, 3, 4, 5, 6]) =
     Inr [[[0, 2, 0], [3, 1, 5], [0, 4, 0]], [[0, 1, 0], [5, 2, 3], [0, 6, 0]],
          [[0, 1, 0], [2, 3, 4], [0, 6, 0]], [[0, 1, 0], [3, 4, 5], [0, 6, 0]],
          [[0, 1, 0], [4, 5, 2], [0, 6, 0]], [[0, 2, 0], [5, 6, 3], [0, 4, 0]]]"
  by code_simp

section \<open>One exchange: the north-north scenario\<close>

text \<open>
  C3. With \<open>N = 4\<close>, on any well-formed field whose tile 0 has the interior north row
  \<open>[1,2,3,4]\<close> and whose tile 1 has the interior north row \<open>[5,6,7,8]\<close>, the exchange
  for the adjacency of \<open>(0,N)\<close> and \<open>(1,N)\<close> with the reverse tag \<open>"R"\<close> succeeds and
  leaves \<open>[8,7,6,5]\<close> in the north halo of tile 0 and \<open>[4,3,2,1]\<close> in the north halo of
  tile 1.
\<close>

theorem exchange_north_north_reverse:
  fixes f :: "int field"
  assumes "wf_field 4 f"
    and "extract_boundary_data (f ! 0) North 4 = [1, 2, 3, 4]"
    and "extract_boundary_data (f ! 1) North 4 = [5, 6, 7, 8]"
  shows "\<exists>f'. exchange_edge_pair f 0 North 1 North ''R'' 4 = Inr f'
            \<and> ghost_data (f' ! 0) North 4 = [8, 7, 6, 5]
            \<and> ghost_data (f' ! 1) North 4 = [4, 3, 2, 1]"
proof -
  have len: "length f = 6"
    using assms(1) by (simp add: wf_field_def)
  have wf0: "wf_grid 4 (f ! 0)" and wf1: "wf_grid 4 (f ! 1)"
    using assms(1) by (simp_all add: wf_field_def wf_tiles_def)
  have ok: "adjacency_ok (length f) ((0, North), (1, North), ''R'')"
    by (simp add: adjacency_ok_def supported_operations_def len)
  let ?f' = "exchange_pure 4 ((0, North), (1, North), ''R'') f"
  have run: "exchange_edge_pair f 0 North 1 North ''R'' 4 = Inr ?f'"
    by (rule exchange_edge_pair_pure [OF ok])
  have t0: "?f' ! 0 = set_ghost_data (f ! 0) North [8, 7, 6, 5] 4"
    using assms(3) by (simp add: halo_write_def boundary_data_def orient_def len)
  have t1: "?f' ! 1 = set_ghost_data (f ! 1) North [4, 3, 2, 1] 4"
    using assms(2) by (simp add: halo_write_def boundary_data_def orient_def len)
  have g0: "ghost_data (?f' ! 0) North 4 = [8, 7, 6, 5]"
    unfolding t0 by (rule ghost_data_set_ghost_data [OF wf0]) simp
  have g1: "ghost_data (?f' ! 1) North 4 = [4, 3, 2, 1]"
    unfolding t1 by (rule ghost_data_set_ghost_data [OF wf1]) simp
  show ?thesis
    using run g0 g1 by blast
qed

text \<open>
  The scenario of C3 on a concrete field: tile 0 and tile 1 carry the two rows, the
  other four tiles are zero in their north row.
\<close>

lemma example_field4_wf:
  "wf_field 4 (map tile4 [[1, 2, 3, 4], [5, 6, 7, 8], [0, 0, 0, 0], [0, 0, 0, 0],
                          [0, 0, 0, 0], [0, 0, 0, 0]])"
  by (simp add: wf_field_def wf_tiles_def wf_grid_def tile4_def)

theorem exchange_north_north_reverse_witness:
  "wf_field 4 (map tile4 [[1, 2, 3, 4], [5, 6, 7, 8], [0, 0, 0, 0], [0, 0, 0, 0],
                          [0, 0, 0, 0], [0, 0, 0, 0]])
   \<and> extract_boundary_data (tile4 [1, 2, 3, 4]) North 4 = [1, 2, 3, 4]
   \<and> extract_boundary_data (tile4 [5, 6, 7, 8]) North 4 = [5, 6, 7, 8]
   \<and> (\<exists>f'. exchange_edge_pair
              (map tile4 [[1, 2, 3, 4], [5, 6, 7, 8], [0, 0, 0, 0], [0, 0, 0, 0],
                          [0, 0, 0, 0], [0, 0, 0, 0]]) 0 North 1 North ''R'' 4 = Inr f'
          \<and> ghost_data (f' ! 0) North 4 = [8, 7, 6, 5]
          \<and> ghost_data (f' ! 1) North 4 = [4, 3, 2, 1])"
proof -
  let ?f = "map tile4 [[1, 2, 3, 4], [5, 6, 7, 8], [0, 0, 0, 0], [0, 0, 0, 0],
                       [0, 0, 0, 0], [0, 0, 0, 0]]"
  have a: "extract_boundary_data (tile4 [1, 2, 3, 4]) North 4 = [1, 2, 3, 4]"
    by code_simp
  have b: "extract_boundary_data (tile4 [5, 6, 7, 8]) North 4 = [5, 6, 7, 8]"
    by code_simp
  have a': "extract_boundary_data (?f ! 0) North 4 = [1, 2, 3, 4]"
    using a by simp
  have b': "extract_boundary_data (?f ! 1) North 4 = [5, 6, 7, 8]"
    using b by simp
  show ?thesis
    using exchange_north_north_reverse [OF example_field4_wf a' b'] example_field4_wf a b
    by blast
qed

section \<open>Build and call: what is checked\<close>

text \<open>
  C6, as stated, has the build fail on a schedule that misses an adjacency. The schedule
  without its last adjacency, the one of \<open>(4,S)\<close> and \<open>(5,W)\<close>, has 11 adjacencies; the
  exchange built from it for \<open>N = 1\<close> runs on a six-tile field and returns a field in
  which the south halo of tile 4 and the west halo of tile 5 are still 0.
\<close>

theorem incomplete_schedule_accepted:
  "length (concat (butlast create_communication_schedule
                   @ [butlast (last create_communication_schedule)])) = 11
   \<and> make_halo_exchange
       (butlast create_communication_schedule @ [butlast (last create_communication_schedule)])
       1 (map tile1 [1, 2, 3, 4, 5, 6]) =
     Inr [[[0, 2, 0], [3, 1, 5], [0, 4, 0]], [[0, 1, 0], [5, 2, 3], [0, 6, 0]],
          [[0, 1, 0], [2, 3, 4], [0, 6, 0]], [[0, 1, 0], [3, 4, 5], [0, 6, 0]],
          [[0, 1, 0], [4, 5, 2], [0, 0, 0]], [[0, 2, 0], [0, 6, 3], [0, 4, 0]]]"
  by code_simp

text \<open>
  C6, amended. \<open>create_communication_schedule\<close> takes no argument and is the fixed
  schedule, so it has nothing to reject; \<open>make_halo_exchange\<close> checks neither coverage
  nor disjointness. For every schedule, complete or not, whose adjacencies name tiles
  the field has and carry accepted tags, the built function succeeds and applies exactly
  the adjacencies listed, in order.
\<close>

theorem make_halo_exchange_unvalidated:
  assumes "\<forall>x \<in> set (concat sched). adjacency_ok (length f) x"
  shows "make_halo_exchange sched N f = Inr (fold (exchange_pure N) (concat sched) f)"
  using assms by (rule make_halo_exchange_pure)

text \<open>
  The amended C6 on a schedule of a single adjacency that pairs an edge with itself,
  followed by an empty stage, over a field of one tile.
\<close>

theorem make_halo_exchange_unvalidated_witness:
  "make_halo_exchange [[((0, North), (0, North), ''R'')], []] 1 [tile1 1] =
     Inr (fold (exchange_pure 1) [((0, North), (0, North), ''R'')] [tile1 1])
   \<and> make_halo_exchange [[((0, North), (0, North), ''R'')], []] 1 [tile1 1] =
     Inr [[[0, 1, 0], [0, 1, 0], [0, 0, 0]]]"
proof -
  have ok: "\<forall>x \<in> set (concat [[((0, North), (0, North), ''R'')], []]).
              adjacency_ok (length [tile1 1]) x"
    by (simp add: adjacency_ok_def supported_operations_def)
  have ev: "make_halo_exchange [[((0, North), (0, North), ''R'')], []] 1 [tile1 1] =
          Inr [[[0, 1, 0], [0, 1, 0], [0, 0, 0]]]"
    by code_simp
  have "concat [[((0, North), (0, North), ''R'')], []] = [((0, North), (0, North), ''R'')]"
    by simp
  then show ?thesis
    using ev make_halo_exchange_unvalidated [OF ok, of 1] by simp
qed







lemma wf_tiles_roomy: "wf_tiles N f \<Longrightarrow> roomy_tiles N f"
  by (simp add: wf_tiles_def roomy_tiles_def wf_grid_def roomy_grid_def)





section \<open>Idempotence and order-independence\<close>

text \<open>
  C8. On every well-formed field the composed exchange succeeds, and running it again on
  its own result returns that result unchanged: the halos written by the second run are
  those of the first.
\<close>

theorem exchange_idempotent:
  assumes "wf_field N f"
  shows "\<exists>f'. make_halo_exchange create_communication_schedule N f = Inr f'
            \<and> make_halo_exchange create_communication_schedule N f' = Inr f'"
proof -
  let ?xs = "concat create_communication_schedule"
  let ?f' = "fold (exchange_pure N) ?xs f"
  have len: "length f = 6"
    using assms by (simp add: wf_field_def)
  have ok: "\<forall>x \<in> set ?xs. adjacency_ok (length f) x"
    using schedule_adjacencies_ok by (simp add: len)
  have first: "make_halo_exchange create_communication_schedule N f = Inr ?f'"
    by (rule make_halo_exchange_pure [OF ok])
  have ok': "\<forall>x \<in> set ?xs. adjacency_ok (length ?f') x"
    using ok by simp
  have "make_halo_exchange create_communication_schedule N ?f' =
        Inr (fold (exchange_pure N) ?xs ?f')"
    by (rule make_halo_exchange_pure [OF ok'])
  also have "fold (exchange_pure N) ?xs ?f' = ?f'"
    by (rule fold_exchange_pure_idem [OF schedule_adjacencies_distinct])
  finally show ?thesis
    using first by blast
qed

text \<open>
  C8 on the six-tile example with \<open>N = 1\<close>: the exchanged field is a fixed point.
\<close>

theorem exchange_idempotent_witness:
  "wf_field 1 (map tile1 [1, 2, 3, 4, 5, 6])
   \<and> make_halo_exchange create_communication_schedule 1 (map tile1 [1, 2, 3, 4, 5, 6]) =
       Inr [[[0, 2, 0], [3, 1, 5], [0, 4, 0]], [[0, 1, 0], [5, 2, 3], [0, 6, 0]],
            [[0, 1, 0], [2, 3, 4], [0, 6, 0]], [[0, 1, 0], [3, 4, 5], [0, 6, 0]],
            [[0, 1, 0], [4, 5, 2], [0, 6, 0]], [[0, 2, 0], [5, 6, 3], [0, 4, 0]]]
   \<and> make_halo_exchange create_communication_schedule 1
         [[[0, 2, 0], [3, 1, 5], [0, 4, 0]], [[0, 1, 0], [5, 2, 3], [0, 6, 0]],
          [[0, 1, 0], [2, 3, 4], [0, 6, 0]], [[0, 1, 0], [3, 4, 5], [0, 6, 0]],
          [[0, 1, 0], [4, 5, 2], [0, 6, 0]], [[0, 2, 0], [5, 6, 3], [0, 4 :: int, 0]]] =
       Inr [[[0, 2, 0], [3, 1, 5], [0, 4, 0]], [[0, 1, 0], [5, 2, 3], [0, 6, 0]],
            [[0, 1, 0], [2, 3, 4], [0, 6, 0]], [[0, 1, 0], [3, 4, 5], [0, 6, 0]],
            [[0, 1, 0], [4, 5, 2], [0, 6, 0]], [[0, 2, 0], [5, 6, 3], [0, 4, 0]]]"
proof -
  obtain f' where first: "make_halo_exchange create_communication_schedule 1
                            (map tile1 [1, 2, 3, 4, 5, 6]) = Inr f'"
    and again: "make_halo_exchange create_communication_schedule 1 f' = Inr f'"
    using exchange_idempotent [OF example_field_wf] by blast
  from first have "f' = [[[0, 2, 0], [3, 1, 5], [0, 4, 0]], [[0, 1, 0], [5, 2, 3], [0, 6, 0]],
          [[0, 1, 0], [2, 3, 4], [0, 6, 0]], [[0, 1, 0], [3, 4, 5], [0, 6, 0]],
          [[0, 1, 0], [4, 5, 2], [0, 6, 0]], [[0, 2, 0], [5, 6, 3], [0, 4, 0]]]"
    unfolding example_field_exchange by (rule sum.inject [THEN iffD1, symmetric])
  with again example_field_wf example_field_exchange show ?thesis
    by blast
qed

text \<open>
  C9. For every well-formed field and every stage of the schedule, running the stage's
  three exchanges one after the other in any order (any list with the same adjacencies)
  succeeds with the same resulting field as running them in the schedule's order.
\<close>

theorem stage_order_independent:
  assumes "wf_field N f" and "st \<in> set create_communication_schedule"
    and "mset st' = mset st"
  shows "\<exists>f'. make_halo_exchange [st] N f = Inr f' \<and> make_halo_exchange [st'] N f = Inr f'"
proof -
  have len: "length f = 6"
    using assms(1) by (simp add: wf_field_def)
  have "set st \<subseteq> set (concat create_communication_schedule)"
    using assms(2) by auto
  then have ok: "\<forall>x \<in> set (concat [st]). adjacency_ok (length f) x"
    using schedule_adjacencies_ok by (auto simp: len)
  have "set st' = set st"
    using assms(3) by (rule mset_eq_setD)
  then have ok': "\<forall>x \<in> set (concat [st']). adjacency_ok (length f) x"
    using ok by simp
  have "make_halo_exchange [st'] N f = Inr (fold (exchange_pure N) st' f)"
    using make_halo_exchange_pure [OF ok'] by simp
  also have "fold (exchange_pure N) st' f = fold (exchange_pure N) st f"
    by (rule fold_exchange_pure_perm [OF stage_adjacencies_distinct [OF assms(2)] assms(3)])
  finally show ?thesis
    using make_halo_exchange_pure [OF ok] by simp
qed

text \<open>
  C9 on stage 0 with its adjacencies rotated, over the six-tile example.
\<close>

lemma example_stage_result:
  "make_halo_exchange
     [[((0, North), (1, North), ''R''), ((3, East), (4, West), ''N''),
       ((2, South), (5, East), ''TR'')]] 1 (map tile1 [1, 2, 3, 4, 5, 6]) =
   Inr [[[0, 2, 0], [0, 1, 0], [0, 0, 0]], [[0, 1, 0], [0, 2, 0], [0, 0, 0]],
        [[0, 0, 0], [0, 3, 0], [0, 6, 0]], [[0, 0, 0], [0, 4, 5], [0, 0, 0]],
        [[0, 0, 0], [4, 5, 0], [0, 0, 0]], [[0, 0, 0], [0, 6, 3], [0, 0, 0]]]"
  by code_simp

theorem stage_order_independent_witness:
  "make_halo_exchange
     [[((2, South), (5, East), ''TR''), ((0, North), (1, North), ''R''),
       ((3, East), (4, West), ''N'')]] 1 (map tile1 [1, 2, 3, 4, 5, 6]) =
   Inr [[[0, 2, 0], [0, 1, 0], [0, 0, 0]], [[0, 1, 0], [0, 2, 0], [0, 0, 0]],
        [[0, 0, 0], [0, 3, 0], [0, 6, 0]], [[0, 0, 0], [0, 4, 5], [0, 0, 0]],
        [[0, 0, 0], [4, 5, 0], [0, 0, 0]], [[0, 0, 0], [0, 6, 3], [0, 0, 0]]]"
proof -
  let ?st = "[((0, North), (1, North), ''R''), ((3, East), (4, West), ''N''),
              ((2, South), (5, East), ''TR'')]"
  let ?st' = "[((2, South), (5, East), ''TR''), ((0, North), (1, North), ''R''),
               ((3, East), (4, West), ''N'')]"
  have mem: "?st \<in> set create_communication_schedule"
    by (simp add: create_communication_schedule_def)
  have perm: "mset ?st' = mset ?st"
    by simp
  obtain f' where a: "make_halo_exchange [?st] 1 (map tile1 [1, 2, 3, 4, 5, 6]) = Inr f'"
    and b: "make_halo_exchange [?st'] 1 (map tile1 [1, 2, 3, 4, 5, 6]) = Inr f'"
    using stage_order_independent [OF example_field_wf mem perm] by blast
  from a have "Inr f' = make_halo_exchange [?st] 1 (map tile1 [1, 2, 3, 4, 5, 6])"
    by (rule sym)
  then show ?thesis
    unfolding b example_stage_result .
qed

section \<open>The input array is left unchanged\<close>

lemma exchange_edge_pair_st_new:
  assumes "r < length s"
  shows "new_result s (exchange_edge_pair (s ! r) face_a edge_a face_b edge_b operations N)
           (exchange_edge_pair_st s r face_a edge_a face_b edge_b operations N)"
  using assms
  by (auto simp: new_result_def exchange_edge_pair_def exchange_edge_pair_st_def at_set_def
      Let_def nth_append split: sum.splits)

lemma cubesphere_halo_exchange_st_chain:
  "r < length s \<Longrightarrow>
   (case cubesphere_halo_exchange
           (map (\<lambda>((face_a, edge_a), (face_b, edge_b), operations) field_ghosts.
                   exchange_edge_pair field_ghosts face_a edge_a face_b edge_b operations N) xs)
           (s ! r) of
      Inl err \<Rightarrow>
        cubesphere_halo_exchange_st
          (map (\<lambda>((face_a, edge_a), (face_b, edge_b), operations) s field_ghosts.
                  exchange_edge_pair_st s field_ghosts face_a edge_a face_b edge_b operations N) xs)
          s r = Inl err
    | Inr f' \<Rightarrow>
        (\<exists>s' r'.
           cubesphere_halo_exchange_st
             (map (\<lambda>((face_a, edge_a), (face_b, edge_b), operations) s field_ghosts.
                     exchange_edge_pair_st s field_ghosts face_a edge_a face_b edge_b operations N) xs)
             s r = Inr (s', r')
           \<and> take (length s) s' = s \<and> (if xs = [] then r' = r else length s \<le> r')
           \<and> r' < length s' \<and> s' ! r' = f'))"
proof (induction xs arbitrary: s r)
  case Nil
  then show ?case by simp
next
  case (Cons x xs)
  obtain face_a edge_a face_b edge_b operations
    where x: "x = ((face_a, edge_a), (face_b, edge_b), operations)"
    by (metis prod.exhaust)
  note first = exchange_edge_pair_st_new [OF Cons.prems, of face_a edge_a face_b edge_b operations N]
  show ?case
  proof (cases "exchange_edge_pair (s ! r) face_a edge_a face_b edge_b operations N")
    case (Inl err)
    then show ?thesis
      using first by (simp add: x new_result_def)
  next
    case (Inr f1)
    then obtain s1 r1 where st1:
      "exchange_edge_pair_st s r face_a edge_a face_b edge_b operations N = Inr (s1, r1)"
      and keep: "take (length s) s1 = s" and new: "length s \<le> r1"
      and r1: "r1 < length s1" and val: "s1 ! r1 = f1"
      using first by (auto simp: new_result_def split: sum.splits)
    have le: "length s \<le> length s1"
      using new r1 by simp
    have keep': "take (length s) s' = s" if "take (length s1) s' = s1" for s'
    proof -
      have "take (length s) s' = take (length s) (take (length s1) s')"
        using le by (simp add: min_def)
      then show ?thesis
        using that keep by simp
    qed
    show ?thesis
      using Cons.IH [OF r1] new le keep'
      by (auto simp: x Inr st1 val split: sum.splits if_splits)
  qed
qed

lemma make_halo_exchange_st_new:
  assumes "r < length s" and "concat sched \<noteq> []"
  shows "new_result s (make_halo_exchange sched N (s ! r)) (make_halo_exchange_st sched N s r)"
proof -
  have st: "exchange_functions_st sched N =
     map (\<lambda>((face_a, edge_a), (face_b, edge_b), operations) s field_ghosts.
            exchange_edge_pair_st s field_ghosts face_a edge_a face_b edge_b operations N)
         (concat sched)"
    by (simp add: exchange_functions_st_def map_concat)
  show ?thesis
    using cubesphere_halo_exchange_st_chain [OF assms(1), of N "concat sched"] assms(2)
    unfolding make_halo_exchange_def make_halo_exchange_st_def exchange_functions_concat st
    by (auto simp: new_result_def split: sum.splits if_splits)
qed

text \<open>
  C10. For every store and every allocated reference to a field array, the pairwise
  exchange and the composed exchange over the store do what they do over values, and when
  they succeed they return a reference that was not allocated before, while every array
  that was in the store, the input array among them, is still there unchanged.
\<close>

theorem exchange_leaves_input_unchanged:
  assumes "r < length s"
  shows "new_result s (exchange_edge_pair (s ! r) face_a edge_a face_b edge_b operations N)
           (exchange_edge_pair_st s r face_a edge_a face_b edge_b operations N)
       \<and> new_result s (make_halo_exchange create_communication_schedule N (s ! r))
           (make_halo_exchange_st create_communication_schedule N s r)"
proof -
  have "concat create_communication_schedule \<noteq> []"
    by (simp add: create_communication_schedule_def)
  then show ?thesis
    using exchange_edge_pair_st_new [OF assms] make_halo_exchange_st_new [OF assms] by blast
qed

text \<open>
  C10 on a store holding the six-tile example alone: one exchange allocates two arrays
  and returns the second; the composed exchange returns a new array holding the exchanged
  field and keeps the input.
\<close>

lemma example_store_pair:
  "exchange_edge_pair_st [map tile1 [1, 2, 3, 4, 5, 6]] 0 0 North 1 North ''R'' 1 =
     Inr ([map tile1 [1, 2, 3, 4, 5, 6],
           [tile1 1, [[0, 1, 0], [0, 2, 0], [0, 0, 0]], tile1 3, tile1 4, tile1 5, tile1 6],
           [[[0, 2, 0], [0, 1, 0], [0, 0, 0]], [[0, 1, 0], [0, 2, 0], [0, 0, 0]],
            tile1 3, tile1 4, tile1 5, tile1 6]], 2)"
  by code_simp

theorem exchange_leaves_input_unchanged_witness:
  "(0::nat) < length [map tile1 [1, 2, 3, 4, 5, 6]]
   \<and> new_result [map tile1 [1, 2, 3, 4, 5, 6]]
       (exchange_edge_pair (map tile1 [1, 2, 3, 4, 5, 6]) 0 North 1 North ''R'' 1)
       (Inr ([map tile1 [1, 2, 3, 4, 5, 6],
           [tile1 1, [[0, 1, 0], [0, 2, 0], [0, 0, 0]], tile1 3, tile1 4, tile1 5, tile1 6],
           [[[0, 2, 0], [0, 1, 0], [0, 0, 0]], [[0, 1, 0], [0, 2, 0], [0, 0, 0]],
            tile1 3, tile1 4, tile1 5, tile1 6]], 2))
   \<and> new_result [map tile1 [1, 2, 3, 4, 5, 6]]
       (Inr [[[0, 2, 0], [3, 1, 5], [0, 4, 0]], [[0, 1, 0], [5, 2, 3], [0, 6, 0]],
             [[0, 1, 0], [2, 3, 4], [0, 6, 0]], [[0, 1, 0], [3, 4, 5], [0, 6, 0]],
             [[0, 1, 0], [4, 5, 2], [0, 6, 0]], [[0, 2, 0], [5, 6, 3], [0, 4, 0]]])
       (make_halo_exchange_st create_communication_schedule 1 [map tile1 [1, 2, 3, 4, 5, 6]] 0)"
proof -
  have r: "(0::nat) < length [map tile1 [1, 2, 3, 4, 5, 6]]"
    by simp
  have "new_result [map tile1 [1, 2, 3, 4, 5, 6]]
          (exchange_edge_pair ([map tile1 [1, 2, 3, 4, 5, 6]] ! 0) 0 North 1 North ''R'' 1)
          (exchange_edge_pair_st [map tile1 [1, 2, 3, 4, 5, 6]] 0 0 North 1 North ''R'' 1)
      \<and> new_result [map tile1 [1, 2, 3, 4, 5, 6]]
          (make_halo_exchange create_communication_schedule 1 ([map tile1 [1, 2, 3, 4, 5, 6]] ! 0))
          (make_halo_exchange_st create_communication_schedule 1 [map tile1 [1, 2, 3, 4, 5, 6]] 0)"
    by (rule exchange_leaves_input_unchanged [OF r])
  then show ?thesis
    using r unfolding nth_Cons_0 example_store_pair example_field_exchange by blast
qed

end
